theory Spec2Isabelle
  imports Main "HOL-Library.Sublist" "HOL-Library.List_Lexorder" "HOL-Library.Product_Lexorder"
begin

section \<open>Data model\<close>

text \<open>
  The module \<^verbatim>\<open>supabase_client.py\<close> is a facade over two remote collections,
  \<^verbatim>\<open>conversations\<close> and \<^verbatim>\<open>messages\<close>. Rows are Python dictionaries; here each
  collection has a record type with one field per column the code reads or writes.
  A column that may be null (Python \<^verbatim>\<open>None\<close>) or a key that may be missing is an
  \<open>option\<close>. Primary keys are opaque strings; \<^verbatim>\<open>str(id)\<close> is the identity on them.
  A timestamp is an integer (microseconds since the epoch): the code only stores,
  compares and prints timestamps.
\<close>

record conversation =
  conv_id :: string
  conv_channel :: string
  contact_identifier :: string
  contact_name :: "string option"
  status :: string
  last_message_at :: "int option"

text \<open>
  A message row. \<open>metadata\<close> and \<open>payload\<close> hold the \<^verbatim>\<open>media_type\<close> entry of the
  corresponding dictionary (\<open>None\<close> when the dictionary or the entry is absent).
  \<open>conversations\<close> is the embedded parent row that the select
  \<^verbatim>\<open>'*, conversations!inner(contact_identifier, contact_name)'\<close> adds; a stored row has none.
\<close>

record row =
  msg_id :: string
  conversation_id :: string
  channel :: string
  direction :: string
  row_sender :: "string option"
  recipient :: "string option"
  body :: string
  created_at :: int
  updated_at :: int
  topic :: string
  extension :: string
  external_id :: "string option"
  metadata :: "string option"
  payload :: "string option"
  conversations :: "conversation option"

record Message =
  timestamp :: int
  sender :: string
  content :: string
  is_from_me :: bool
  chat_jid :: string
  ident :: string
  chat_name :: "string option"
  media_type :: "string option"

record Contact =
  phone_number :: string
  name :: "string option"
  jid :: string

record MessageContext =
  message :: Message
  before :: "Message list"
  after :: "Message list"

text \<open>Python exceptions, with the text that \<^verbatim>\<open>str(e)\<close> gives.\<close>

datatype error = ValueError string | APIError string | IndexError string

fun str_error :: "error \<Rightarrow> string" where
  "str_error (ValueError s) = s"
| "str_error (APIError s) = s"
| "str_error (IndexError s) = s"

text \<open>Truthiness of an \<^verbatim>\<open>Optional[str]\<close>: \<^verbatim>\<open>None\<close> and \<^verbatim>\<open>''\<close> are false.\<close>

definition truthy :: "string option \<Rightarrow> bool" where
  "truthy s = (case s of None \<Rightarrow> False | Some x \<Rightarrow> x \<noteq> [])"

text \<open>\<^verbatim>\<open>a or b\<close> on optional strings.\<close>

definition or_else :: "string option \<Rightarrow> string option \<Rightarrow> string option" where
  "or_else a b = (if truthy a then a else b)"

section \<open>The Store collaborator\<close>

text \<open>
  The state of the world the module talks to: the two collections, whether the
  connection parameters are configured, the clock read by \<^verbatim>\<open>datetime.utcnow()\<close>, and
  the outcome of each coming remote round trip (\<open>Some e\<close>: the call raises \<open>e\<close>;
  \<open>None\<close>, or an exhausted list: the call goes through).
\<close>

record store =
  conversations_tbl :: "conversation list"
  messages_tbl :: "row list"
  configured :: bool
  clock :: int
  faults :: "error option list"

type_synonym 'a io = "store \<Rightarrow> (error + 'a) \<times> store"

definition return_io :: "'a \<Rightarrow> 'a io" where
  "return_io x w = (Inr x, w)"

definition raise_io :: "error \<Rightarrow> 'a io" where
  "raise_io e w = (Inl e, w)"

definition bind_io :: "'a io \<Rightarrow> ('a \<Rightarrow> 'b io) \<Rightarrow> 'b io" where
  "bind_io m f w = (case m w of (Inl e, w') \<Rightarrow> (Inl e, w') | (Inr x, w') \<Rightarrow> f x w')"

definition get_supabase :: "unit io" where
  "get_supabase w =
     (if configured w then (Inr (), w)
      else (Inl (ValueError ''SUPABASE_URL and SUPABASE_KEY environment variables are required''), w))"

text \<open>
  Modelled from the spec: the Store is an opaque remote service; one \<^verbatim>\<open>.execute()\<close> is
  one round trip, which raises or goes through. \<open>execute\<close> consumes the next outcome.
\<close>

definition execute :: "unit io" where
  "execute w =
     (case faults w of
        [] \<Rightarrow> (Inr (), w)
      | None # fs \<Rightarrow> (Inr (), w\<lparr>faults := fs\<rparr>)
      | Some e # fs \<Rightarrow> (Inl e, w\<lparr>faults := fs\<rparr>))"

text \<open>A read: one round trip, then the query \<open>q\<close> evaluated on the collections.\<close>

definition fetch :: "(store \<Rightarrow> error + 'a) \<Rightarrow> 'a io" where
  "fetch q = bind_io execute (\<lambda>_ w. (q w, w))"

text \<open>
  Modelled from the spec: the one-hop relationship join message \<open>\<rightarrow>\<close> owning conversation.
  The inner join keeps a message only when its conversation exists.
\<close>

definition join_conversation :: "conversation list \<Rightarrow> row \<Rightarrow> row option" where
  "join_conversation cs r =
     (case List.find (\<lambda>c. conv_id c = conversation_id r) cs of
        None \<Rightarrow> None
      | Some c \<Rightarrow> Some (r\<lparr>conversations := Some c\<rparr>))"

definition joined :: "store \<Rightarrow> row list" where
  "joined w = List.map_filter (join_conversation (conversations_tbl w)) (messages_tbl w)"

text \<open>
  Modelled from the spec: offset+limit pagination. The database rejects a negative
  limit or offset.
\<close>

definition limit :: "int \<Rightarrow> 'a list \<Rightarrow> error + 'a list" where
  "limit n xs = (if n < 0 then Inl (APIError ''LIMIT must not be negative'') else Inr (take (nat n) xs))"

definition range_rows :: "int \<Rightarrow> int \<Rightarrow> 'a list \<Rightarrow> error + 'a list" where
  "range_rows lo hi xs =
     (if lo < 0 then Inl (APIError ''OFFSET must not be negative'')
      else limit (hi - lo + 1) (drop (nat lo) xs))"

text \<open>
  Modelled from the spec: single-row fetch with not-found signalling. \<^verbatim>\<open>.single()\<close>
  raises unless exactly one row matches.
\<close>

definition single :: "'a list \<Rightarrow> error + 'a option" where
  "single xs =
     (case xs of
        [x] \<Rightarrow> Inr (Some x)
      | _ \<Rightarrow> Inl (APIError ''JSON object requested, multiple (or no) rows returned''))"

text \<open>Modelled from the spec: ascending/descending ordering on the creation timestamp.\<close>

definition order_created_at :: "bool \<Rightarrow> row list \<Rightarrow> row list" where
  "order_created_at desc xs =
     (if desc then sort_key (\<lambda>r. - created_at r) xs else sort_key created_at xs)"

section \<open>Rows to messages\<close>

definition row_to_message :: "row \<Rightarrow> string option \<Rightarrow> Message" where
  "row_to_message r conversation_name =
     (let is_from_me' = (direction r = ''outbound'');
          media_type' = (if truthy (metadata r) then metadata r else payload r);
          conversation = conversations r;
          chat_jid' = (if is_from_me' then recipient r else row_sender r);
          chat_jid'' = (if truthy chat_jid' then the chat_jid'
                        else (case conversation of None \<Rightarrow> '''' | Some c \<Rightarrow> contact_identifier c))
      in \<lparr>timestamp = created_at r,
          sender = (case row_sender r of None \<Rightarrow> '''' | Some s \<Rightarrow> s),
          content = body r,
          is_from_me = is_from_me',
          chat_jid = chat_jid'',
          ident = msg_id r,
          chat_name = or_else conversation_name (case conversation of None \<Rightarrow> None | Some c \<Rightarrow> contact_name c),
          media_type = media_type'\<rparr>)"

section \<open>Context lookup\<close>

text \<open>
  \<^verbatim>\<open>get_message_context\<close>: the \<^verbatim>\<open>except\<close> clause prints and re-raises, so every
  failure of the body reaches the caller.
\<close>

definition get_message_context :: "string \<Rightarrow> int \<Rightarrow> int \<Rightarrow> MessageContext io" where
  "get_message_context message_id before_count after_count =
     bind_io get_supabase (\<lambda>_.
     bind_io (fetch (\<lambda>w. single [r \<leftarrow> joined w. msg_id r = message_id])) (\<lambda>data.
       case data of
         None \<Rightarrow> raise_io (ValueError (''Message with ID '' @ message_id @ '' not found''))
       | Some d \<Rightarrow>
           (let target_message = row_to_message d None;
                cid = conversation_id d;
                target_timestamp = created_at d
            in bind_io (fetch (\<lambda>w. limit before_count (order_created_at True
                         [r \<leftarrow> joined w. conversation_id r = cid \<and> created_at r < target_timestamp])))
                 (\<lambda>before_result.
               bind_io (fetch (\<lambda>w. limit after_count (order_created_at False
                         [r \<leftarrow> joined w. conversation_id r = cid \<and> created_at r > target_timestamp])))
                 (\<lambda>after_result.
               return_io \<lparr>message = target_message,
                          before = map (\<lambda>r. row_to_message r None) (rev before_result),
                          after = map (\<lambda>r. row_to_message r None) after_result\<rparr>)))))"

section \<open>Pattern filters\<close>

text \<open>
  Modelled from the spec: pattern (case-insensitive substring) filtering. The code
  hands the store a pattern such as \<^verbatim>\<open>f'%{query}%'\<close>; in a pattern \<^verbatim>\<open>%\<close> stands for any
  run of characters and \<^verbatim>\<open>_\<close> for any one character, and letters match in either case.
\<close>

definition lower :: "char \<Rightarrow> char" where
  "lower c = (let n = (of_char c :: nat) in if 65 \<le> n \<and> n \<le> 90 then char_of (n + 32) else c)"

fun like :: "string \<Rightarrow> string \<Rightarrow> bool" where
  "like [] s = (s = [])"
| "like (p # ps) [] = (p = CHR ''%'' \<and> like ps [])"
| "like (p # ps) (c # cs) =
     (if p = CHR ''%'' then like ps (c # cs) \<or> like (p # ps) cs
      else if p = CHR ''_'' then like ps cs
      else p = c \<and> like ps cs)"

definition ilike :: "string \<Rightarrow> string \<Rightarrow> bool" where
  "ilike pattern s = like (map lower pattern) (map lower s)"

text \<open>A pattern filter on a nullable column: null matches nothing.\<close>

definition ilike_opt :: "string \<Rightarrow> string option \<Rightarrow> bool" where
  "ilike_opt pattern s = (case s of None \<Rightarrow> False | Some x \<Rightarrow> ilike pattern x)"

section \<open>Sender names\<close>

text \<open>\<^verbatim>\<open>result.data and result.data[0].get('contact_name')\<close>, as a usable name.\<close>

definition first_contact_name :: "conversation list \<Rightarrow> string option" where
  "first_contact_name data =
     (case data of
        [] \<Rightarrow> None
      | c # _ \<Rightarrow> (if truthy (contact_name c) then contact_name c else None))"

text \<open>\<^verbatim>\<open>s.split('@')[0] if '@' in s else s\<close>\<close>

definition before_at :: "string \<Rightarrow> string" where
  "before_at s = (if CHR ''@'' \<in> set s then takeWhile (\<lambda>c. c \<noteq> CHR ''@'') s else s)"

definition get_sender_name_try :: "string \<Rightarrow> string io" where
  "get_sender_name_try sender_jid =
     bind_io get_supabase (\<lambda>_.
     bind_io (fetch (\<lambda>w. limit 1
         [c \<leftarrow> conversations_tbl w. contact_identifier c = sender_jid \<and> conv_channel c = ''whatsapp''])) (\<lambda>result.
       case first_contact_name result of
         Some n \<Rightarrow> return_io n
       | None \<Rightarrow>
           (let phone_part = before_at sender_jid
            in bind_io (fetch (\<lambda>w. limit 1
                 [c \<leftarrow> conversations_tbl w. ilike (''%'' @ phone_part @ ''%'') (contact_identifier c)
                                              \<and> conv_channel c = ''whatsapp''])) (\<lambda>result.
                 case first_contact_name result of
                   Some n \<Rightarrow> return_io n
                 | None \<Rightarrow> return_io sender_jid))))"

text \<open>The \<^verbatim>\<open>except Exception\<close> clause: print, and return the input.\<close>

definition get_sender_name :: "string \<Rightarrow> store \<Rightarrow> string \<times> store" where
  "get_sender_name sender_jid w =
     (case get_sender_name_try sender_jid w of
        (Inr n, w') \<Rightarrow> (n, w')
      | (Inl e, w') \<Rightarrow> (sender_jid, w'))"

section \<open>Formatting\<close>

text \<open>
  The text of a timestamp. The calendar arithmetic of \<^verbatim>\<open>datetime\<close> is not modelled:
  \<open>strftime\<close> stands for the \<^verbatim>\<open>%Y-%m-%d %H:%M:%S\<close> rendering and prints the integer in
  decimal, and \<open>fromisoformat\<close> reads a decimal integer and raises on any other text.
\<close>

fun digits :: "nat \<Rightarrow> string" where
  "digits n = (if n < 10 then [char_of (48 + n)] else digits (n div 10) @ [char_of (48 + n mod 10)])"

declare digits.simps [simp del]

definition strftime :: "int \<Rightarrow> string" where
  "strftime t = (if t < 0 then CHR ''-'' # digits (nat (- t)) else digits (nat t))"

definition is_digit :: "char \<Rightarrow> bool" where
  "is_digit c = (48 \<le> (of_char c :: nat) \<and> (of_char c :: nat) \<le> 57)"

definition digits_value :: "string \<Rightarrow> nat" where
  "digits_value ds = foldl (\<lambda>n c. 10 * n + (of_char c - 48)) 0 ds"

definition fromisoformat :: "string \<Rightarrow> error + int" where
  "fromisoformat s =
     (let ds = (case s of CHR ''-'' # r \<Rightarrow> r | _ \<Rightarrow> s)
      in if ds \<noteq> [] \<and> list_all is_digit ds
         then Inr (case s of CHR ''-'' # r \<Rightarrow> - int (digits_value ds) | _ \<Rightarrow> int (digits_value ds))
         else Inl (ValueError (''Invalid isoformat string: '' @ s)))"

text \<open>
  \<^verbatim>\<open>format_message\<close>. The part of the line built before the \<^verbatim>\<open>try\<close> block is \<open>output\<close>;
  inside the block the sender name is resolved and the rest of the line appended; the
  \<^verbatim>\<open>except\<close> clause prints and falls through to \<^verbatim>\<open>return output\<close>. The resolver is a
  parameter of \<open>format_message_with\<close>, so that the \<^verbatim>\<open>except\<close> branch can be stated for a
  resolution that raises; \<open>format_message\<close> is the function of the source, with
  \<open>get_sender_name\<close> in that place.
\<close>

definition format_message_with ::
  "(string \<Rightarrow> string io) \<Rightarrow> Message \<Rightarrow> bool \<Rightarrow> store \<Rightarrow> string \<times> store" where
  "format_message_with resolve m show_chat_info w =
     (let output = (if show_chat_info \<and> truthy (chat_name m)
                    then ''['' @ strftime (timestamp m) @ ''] Chat: '' @ the (chat_name m) @ '' ''
                    else ''['' @ strftime (timestamp m) @ ''] '');
          content_prefix = (if truthy (media_type m)
                            then ''['' @ the (media_type m) @ '' - Message ID: '' @ ident m
                                 @ '' - Chat JID: '' @ chat_jid m @ ''] ''
                            else [])
      in case (if \<not> is_from_me m then resolve (sender m) w else (Inr ''Me'', w)) of
           (Inr sender_name, w') \<Rightarrow>
             (output @ ''From: '' @ sender_name @ '': '' @ content_prefix @ content m @ [CHR 0x0A], w')
         | (Inl e, w') \<Rightarrow> (output, w'))"

definition format_message :: "Message \<Rightarrow> bool \<Rightarrow> store \<Rightarrow> string \<times> store" where
  "format_message =
     format_message_with (\<lambda>j w. case get_sender_name j w of (n, w') \<Rightarrow> (Inr n, w'))"

text \<open>The loop of \<^verbatim>\<open>format_messages_list\<close>, with \<open>output\<close> as accumulator.\<close>

fun format_loop :: "string \<Rightarrow> Message list \<Rightarrow> bool \<Rightarrow> store \<Rightarrow> string \<times> store" where
  "format_loop output [] show_chat_info w = (output, w)"
| "format_loop output (m # ms) show_chat_info w =
     (case format_message m show_chat_info w of
        (line, w') \<Rightarrow> format_loop (output @ line) ms show_chat_info w')"

definition format_messages_list :: "Message list \<Rightarrow> bool \<Rightarrow> store \<Rightarrow> string \<times> store" where
  "format_messages_list messages show_chat_info w =
     (if messages = [] then (''No messages to display.'', w)
      else format_loop [] messages show_chat_info w)"

section \<open>Listing messages\<close>

text \<open>\<^verbatim>\<open>if after: after_dt = datetime.fromisoformat(after)\<close>, and the same for \<^verbatim>\<open>before\<close>.\<close>

definition parse_bound :: "string option \<Rightarrow> int option io" where
  "parse_bound s =
     (if truthy s
      then (case fromisoformat (the s) of Inl e \<Rightarrow> raise_io e | Inr t \<Rightarrow> return_io (Some t))
      else return_io None)"

text \<open>The filters that \<^verbatim>\<open>list_messages\<close> adds to its query, on a joined row.\<close>

definition list_messages_filter ::
  "int option \<Rightarrow> int option \<Rightarrow> string option \<Rightarrow> string option \<Rightarrow> string option \<Rightarrow> row \<Rightarrow> bool" where
  "list_messages_filter after_dt before_dt sender_phone_number chat query r =
     (channel r = ''whatsapp''
      \<and> (case after_dt of None \<Rightarrow> True | Some t \<Rightarrow> t \<le> created_at r)
      \<and> (case before_dt of None \<Rightarrow> True | Some t \<Rightarrow> created_at r \<le> t)
      \<and> (if truthy sender_phone_number then row_sender r = sender_phone_number else True)
      \<and> (if truthy chat then map_option contact_identifier (conversations r) = chat else True)
      \<and> (if truthy query then ilike (''%'' @ the query @ ''%'') (body r) else True))"

text \<open>The loop that expands every message into its context window.\<close>

fun expand_context :: "Message list \<Rightarrow> Message list \<Rightarrow> int \<Rightarrow> int \<Rightarrow> Message list io" where
  "expand_context acc [] context_before context_after w = (Inr acc, w)"
| "expand_context acc (msg # msgs) context_before context_after w =
     (case get_message_context (ident msg) context_before context_after w of
        (Inl e, w') \<Rightarrow> (Inl e, w')
      | (Inr context, w') \<Rightarrow>
          expand_context (acc @ before context @ [message context] @ after context)
            msgs context_before context_after w')"

definition list_messages_try ::
  "string option \<Rightarrow> string option \<Rightarrow> string option \<Rightarrow> string option \<Rightarrow> string option
     \<Rightarrow> int \<Rightarrow> int \<Rightarrow> bool \<Rightarrow> int \<Rightarrow> int \<Rightarrow> string io" where
  "list_messages_try after_s before_s sender_phone_number chat query lim page
       include_context context_before context_after =
     bind_io get_supabase (\<lambda>_.
     bind_io (parse_bound after_s) (\<lambda>after_dt.
     bind_io (parse_bound before_s) (\<lambda>before_dt.
       let offset = page * lim
       in bind_io (fetch (\<lambda>w. range_rows offset (offset + lim - 1) (order_created_at True
              [r \<leftarrow> joined w. list_messages_filter after_dt before_dt sender_phone_number chat query r])))
            (\<lambda>data.
              let messages = map (\<lambda>r. row_to_message r None) data
              in if include_context \<and> messages \<noteq> []
                 then bind_io (expand_context [] messages context_before context_after)
                        (\<lambda>messages_with_context w.
                           case format_messages_list messages_with_context True w of
                             (text, w') \<Rightarrow> (Inr text, w'))
                 else (\<lambda>w. case format_messages_list messages True w of
                             (text, w') \<Rightarrow> (Inr text, w'))))))"

text \<open>The \<^verbatim>\<open>except Exception\<close> clause: print, and return \<^verbatim>\<open>f"Error: {e}"\<close>.\<close>

definition list_messages ::
  "string option \<Rightarrow> string option \<Rightarrow> string option \<Rightarrow> string option \<Rightarrow> string option
     \<Rightarrow> int \<Rightarrow> int \<Rightarrow> bool \<Rightarrow> int \<Rightarrow> int \<Rightarrow> store \<Rightarrow> string \<times> store" where
  "list_messages after_s before_s sender_phone_number chat query lim page
       include_context context_before context_after w =
     (case list_messages_try after_s before_s sender_phone_number chat query lim page
             include_context context_before context_after w of
        (Inr text, w') \<Rightarrow> (text, w')
      | (Inl e, w') \<Rightarrow> (''Error: '' @ str_error e, w'))"

section \<open>Searching contacts\<close>

text \<open>
  Modelled from the spec: ordering with null placement control. The key of
  \<^verbatim>\<open>.order('contact_name', nullsfirst=False)\<close>: names in lexicographic order of their
  character codes, rows without a name last.
\<close>

definition contact_name_key :: "conversation \<Rightarrow> nat \<times> nat list" where
  "contact_name_key c =
     (case contact_name c of None \<Rightarrow> (1, []) | Some n \<Rightarrow> (0, map of_char n))"

definition search_contacts_try :: "string \<Rightarrow> Contact list io" where
  "search_contacts_try query =
     bind_io get_supabase (\<lambda>_.
     bind_io (fetch (\<lambda>w. limit 50 (sort_key contact_name_key
         [c \<leftarrow> conversations_tbl w.
            conv_channel c = ''whatsapp''
            \<and> \<not> ilike ''%@g.us'' (contact_identifier c)
            \<and> (ilike_opt (''%'' @ query @ ''%'') (contact_name c)
                \<or> ilike (''%'' @ query @ ''%'') (contact_identifier c))]))) (\<lambda>data.
       return_io (map (\<lambda>row. \<lparr>phone_number = before_at (contact_identifier row),
                               name = contact_name row,
                               jid = contact_identifier row\<rparr>) data)))"

definition search_contacts :: "string \<Rightarrow> store \<Rightarrow> Contact list \<times> store" where
  "search_contacts query w =
     (case search_contacts_try query w of
        (Inr contacts, w') \<Rightarrow> (contacts, w')
      | (Inl e, w') \<Rightarrow> ([], w'))"

section \<open>Writes\<close>

text \<open>
  Modelled from the spec: insert and update. The store gives an inserted row a primary
  key that no row of the collection has, and answers with the rows written. A write
  whose round trip raises leaves the collection as it was.
\<close>

definition fresh_id :: "string list \<Rightarrow> string" where
  "fresh_id used = replicate (Suc (foldr (\<lambda>s n. max (length s) n) used 0)) (CHR ''0'')"

definition insert_conversation :: "conversation \<Rightarrow> conversation list io" where
  "insert_conversation c =
     bind_io execute (\<lambda>_ w.
       let c' = c\<lparr>conv_id := fresh_id (map conv_id (conversations_tbl w))\<rparr>
       in (Inr [c'], w\<lparr>conversations_tbl := conversations_tbl w @ [c']\<rparr>))"

definition insert_message :: "row \<Rightarrow> row list io" where
  "insert_message r =
     bind_io execute (\<lambda>_ w.
       let r' = r\<lparr>msg_id := fresh_id (map msg_id (messages_tbl w))\<rparr>
       in (Inr [r'], w\<lparr>messages_tbl := messages_tbl w @ [r']\<rparr>))"

definition update_conversations ::
  "(conversation \<Rightarrow> bool) \<Rightarrow> (conversation \<Rightarrow> conversation) \<Rightarrow> conversation list io" where
  "update_conversations p f =
     bind_io execute (\<lambda>_ w.
       (Inr (map f [c \<leftarrow> conversations_tbl w. p c]),
        w\<lparr>conversations_tbl := map (\<lambda>c. if p c then f c else c) (conversations_tbl w)\<rparr>))"

definition save_message_try ::
  "string \<Rightarrow> string \<Rightarrow> string \<Rightarrow> string \<Rightarrow> string \<Rightarrow> string option \<Rightarrow> string option
     \<Rightarrow> int option \<Rightarrow> string option io" where
  "save_message_try conversation_jid sender' recipient' body' direction' external_id' media_type'
       timestamp' =
     bind_io get_supabase (\<lambda>_.
     bind_io (fetch (\<lambda>w. limit 1
         [c \<leftarrow> conversations_tbl w. contact_identifier c = conversation_jid
                                      \<and> conv_channel c = ''whatsapp''])) (\<lambda>conv_result.
     bind_io (case conv_result of
                c # _ \<Rightarrow> return_io (conv_id c)
              | [] \<Rightarrow>
                  bind_io (insert_conversation
                     \<lparr>conv_id = [], conv_channel = ''whatsapp'',
                      contact_identifier = conversation_jid, contact_name = None,
                      status = ''active'', last_message_at = None\<rparr>) (\<lambda>new_conv.
                    case new_conv of
                      [] \<Rightarrow> raise_io (IndexError ''list index out of range'')
                    | c # _ \<Rightarrow> return_io (conv_id c))) (\<lambda>cid w.
       let now = (case timestamp' of Some t \<Rightarrow> t | None \<Rightarrow> clock w)
       in bind_io (insert_message
             \<lparr>msg_id = [], conversation_id = cid, channel = ''whatsapp'',
              direction = direction', row_sender = Some sender', recipient = Some recipient',
              body = body', created_at = now, updated_at = now, topic = ''chat'',
              extension = ''text'', external_id = external_id',
              metadata = (if truthy media_type' then media_type' else None),
              payload = None, conversations = None\<rparr>) (\<lambda>result.
          bind_io (update_conversations (\<lambda>c. conv_id c = cid)
                     (\<lambda>c. c\<lparr>last_message_at := Some now\<rparr>)) (\<lambda>_.
            return_io (case result of [] \<Rightarrow> None | r # _ \<Rightarrow> Some (msg_id r)))) w)))"

text \<open>The \<^verbatim>\<open>except Exception\<close> clause: print, and return \<^verbatim>\<open>None\<close>.\<close>

definition save_message ::
  "string \<Rightarrow> string \<Rightarrow> string \<Rightarrow> string \<Rightarrow> string \<Rightarrow> string option \<Rightarrow> string option
     \<Rightarrow> int option \<Rightarrow> store \<Rightarrow> string option \<times> store" where
  "save_message conversation_jid sender' recipient' body' direction' external_id' media_type'
       timestamp' w =
     (case save_message_try conversation_jid sender' recipient' body' direction' external_id'
             media_type' timestamp' w of
        (Inr r, w') \<Rightarrow> (r, w')
      | (Inl e, w') \<Rightarrow> (None, w'))"



section \<open>A small store\<close>

text \<open>
  Two conversations (a contact and a group) and four messages, three of them in the
  contact's conversation at times 10, 20 and 30.
\<close>

definition ex_alice :: conversation where
  "ex_alice = \<lparr>conv_id = ''c1'', conv_channel = ''whatsapp'',
     contact_identifier = ''123@s.whatsapp.net'', contact_name = Some ''Alice'',
     status = ''active'', last_message_at = Some 30\<rparr>"

definition ex_group :: conversation where
  "ex_group = \<lparr>conv_id = ''c2'', conv_channel = ''whatsapp'',
     contact_identifier = ''555@g.us'', contact_name = Some ''Family'',
     status = ''active'', last_message_at = Some 25\<rparr>"

definition ex_row :: "string \<Rightarrow> string \<Rightarrow> string \<Rightarrow> string option \<Rightarrow> string option \<Rightarrow> int \<Rightarrow> row" where
  "ex_row i c d s r t =
     \<lparr>msg_id = i, conversation_id = c, channel = ''whatsapp'', direction = d,
      row_sender = s, recipient = r, body = ''hello'', created_at = t, updated_at = t,
      topic = ''chat'', extension = ''text'', external_id = None, metadata = None,
      payload = None, conversations = None\<rparr>"

definition ex_store :: store where
  "ex_store =
     \<lparr>conversations_tbl = [ex_alice, ex_group],
      messages_tbl =
        [ex_row ''m1'' ''c1'' ''inbound'' (Some ''123@s.whatsapp.net'') (Some ''me@s.whatsapp.net'') 10,
         ex_row ''m2'' ''c1'' ''outbound'' (Some ''me@s.whatsapp.net'') (Some ''123@s.whatsapp.net'') 20,
         ex_row ''m3'' ''c1'' ''inbound'' (Some ''123@s.whatsapp.net'') None 30,
         ex_row ''m4'' ''c2'' ''inbound'' (Some ''777@s.whatsapp.net'') (Some ''555@g.us'') 25],
      configured = True, clock = 100, faults = []\<rparr>"

text \<open>The anchor row \<open>m2\<close> as the joined select returns it.\<close>

definition ex_anchor :: row where
  "ex_anchor =
     (ex_row ''m2'' ''c1'' ''outbound'' (Some ''me@s.whatsapp.net'') (Some ''123@s.whatsapp.net'') 20)
       \<lparr>conversations := Some ex_alice\<rparr>"



text \<open>
  A directory with a conversation of another channel, and a contact that has two
  identifiers, the first stored without a name (as \<open>save_message\<close> creates it).
\<close>

definition ex_sms :: conversation where
  "ex_sms = \<lparr>conv_id = ''c3'', conv_channel = ''sms'',
     contact_identifier = ''31612345678'', contact_name = Some ''Carol'',
     status = ''active'', last_message_at = None\<rparr>"

definition ex_unnamed :: conversation where
  "ex_unnamed = \<lparr>conv_id = ''c4'', conv_channel = ''whatsapp'',
     contact_identifier = ''444@s.whatsapp.net'', contact_name = None,
     status = ''active'', last_message_at = None\<rparr>"

definition ex_alias :: conversation where
  "ex_alias = \<lparr>conv_id = ''c5'', conv_channel = ''whatsapp'',
     contact_identifier = ''444@lid'', contact_name = Some ''Dave'',
     status = ''active'', last_message_at = None\<rparr>"

definition ex_directory :: store where
  "ex_directory = ex_store\<lparr>conversations_tbl := [ex_alice, ex_sms, ex_unnamed, ex_alias]\<rparr>"

section \<open>Notions for stating results\<close>

text \<open>The non-empty display name of the row a lookup found, if any.\<close>

definition display_name :: "conversation option \<Rightarrow> string option" where
  "display_name r =
     (case r of
        None \<Rightarrow> None
      | Some c \<Rightarrow> (case contact_name c of None \<Rightarrow> None | Some n \<Rightarrow> if n = [] then None else Some n))"

section \<open>Basic facts about the store model\<close>

lemma fetch_ok: "faults w = [] \<Longrightarrow> fetch q w = (q w, w)"
  by (simp add: fetch_def bind_io_def execute_def)

lemma joined_msg_id: "r \<in> set (joined w) \<Longrightarrow> msg_id r \<in> msg_id ` set (messages_tbl w)"
  by (auto simp: joined_def map_filter_def join_conversation_def split: option.splits)

lemma sorted_rev_take_desc:
  fixes f :: "'a \<Rightarrow> int"
  shows "sorted (map (\<lambda>r. - f r) xs) \<Longrightarrow> sorted (map f (rev (take k xs)))"
  by (simp add: sorted_wrt_map sorted_wrt_rev sorted_wrt_take)

lemma timestamp_row_to_message: "timestamp (row_to_message r n) = created_at r"
  by (simp add: row_to_message_def Let_def)

lemma ex_joined_anchor: "[r \<leftarrow> joined ex_store. msg_id r = ''m2''] = [ex_anchor]"
  by (simp add: joined_def map_filter_def join_conversation_def ex_store_def ex_row_def
      ex_alice_def ex_group_def ex_anchor_def)

section \<open>The chat identifier of a message\<close>

text \<open>
  C7. For a stored message row with its joined parent conversation \<open>c\<close>, the constructed
  message's \<open>chat_jid\<close> is the row's recipient when the direction is \<^verbatim>\<open>outbound\<close>, else
  the row's sender; when that field is absent or empty, it is the identifier of \<open>c\<close>.
\<close>

theorem row_to_message_chat_jid:
  assumes "conversations r = Some c"
  shows "chat_jid (row_to_message r n) =
     (case (if direction r = ''outbound'' then recipient r else row_sender r) of
        None \<Rightarrow> contact_identifier c
      | Some s \<Rightarrow> if s = [] then contact_identifier c else s)"
  using assms by (simp add: row_to_message_def truthy_def Let_def split: option.splits)

theorem row_to_message_chat_jid_witness:
  "conversations (ex_anchor\<lparr>recipient := None\<rparr>) = Some ex_alice
   \<and> chat_jid (row_to_message (ex_anchor\<lparr>recipient := None\<rparr>) None) = ''123@s.whatsapp.net''
   \<and> chat_jid (row_to_message ex_anchor None) = ''123@s.whatsapp.net''
   \<and> chat_jid (row_to_message (ex_anchor\<lparr>direction := ''inbound''\<rparr>) None) = ''me@s.whatsapp.net''"
proof -
  have h: "conversations (ex_anchor\<lparr>recipient := None\<rparr>) = Some ex_alice"
    by (simp add: ex_anchor_def)
  have h': "conversations ex_anchor = Some ex_alice"
    and h'': "conversations (ex_anchor\<lparr>direction := ''inbound''\<rparr>) = Some ex_alice"
    by (simp_all add: ex_anchor_def)
  show ?thesis
    using h row_to_message_chat_jid [OF h, of None] row_to_message_chat_jid [OF h', of None]
      row_to_message_chat_jid [OF h'', of None]
    by (simp add: ex_anchor_def ex_row_def ex_alice_def)
qed

section \<open>Context lookup\<close>

text \<open>
  C2. When no stored message has the given id, \<open>get_message_context\<close> raises: the result
  is never a context. The error is the configuration error when the client is not
  configured, the remote failure when the round trip fails, and otherwise the store's
  not-found error of \<^verbatim>\<open>.single()\<close>.
\<close>

theorem get_message_context_not_found:
  assumes "message_id \<notin> msg_id ` set (messages_tbl w)"
  shows "fst (get_message_context message_id b a w) =
     Inl (if \<not> configured w
          then ValueError ''SUPABASE_URL and SUPABASE_KEY environment variables are required''
          else case faults w of
                 Some e # fs \<Rightarrow> e
               | _ \<Rightarrow> APIError ''JSON object requested, multiple (or no) rows returned'')"
proof -
  have "[r \<leftarrow> joined w'. msg_id r = message_id] = []" if "messages_tbl w' = messages_tbl w" for w'
    using assms that joined_msg_id[of _ w'] by (auto simp: filter_empty_conv)
  then show ?thesis
    by (auto simp: get_message_context_def bind_io_def get_supabase_def fetch_def execute_def
        single_def raise_io_def split: list.splits option.splits)
qed

theorem get_message_context_not_found_witness:
  "''m9'' \<notin> msg_id ` set (messages_tbl ex_store)
   \<and> fst (get_message_context ''m9'' 5 5 ex_store) =
       Inl (APIError ''JSON object requested, multiple (or no) rows returned'')"
proof -
  have h: "''m9'' \<notin> msg_id ` set (messages_tbl ex_store)"
    by (simp add: ex_store_def ex_row_def)
  show ?thesis
    using h get_message_context_not_found [OF h, of 5 5] by (simp add: ex_store_def)
qed

lemma before_window:
  fixes k :: int and xs :: "row list" and cid :: string and ts :: int
  assumes "0 \<le> k"
  defines "rs \<equiv> take (nat k) (order_created_at True
                    [r \<leftarrow> xs. conversation_id r = cid \<and> created_at r < ts])"
  shows "length rs \<le> nat k"
    and "set rs \<subseteq> {r \<in> set xs. conversation_id r = cid \<and> created_at r < ts}"
    and "sorted (map created_at (rev rs))"
proof -
  show "length rs \<le> nat k" by (simp add: rs_def)
  show "set rs \<subseteq> {r \<in> set xs. conversation_id r = cid \<and> created_at r < ts}"
    unfolding rs_def order_created_at_def using set_take_subset by fastforce
  show "sorted (map created_at (rev rs))"
    unfolding rs_def order_created_at_def by (simp add: sorted_rev_take_desc)
qed

lemma after_window:
  fixes k :: int and xs :: "row list" and cid :: string and ts :: int
  assumes "0 \<le> k"
  defines "rs \<equiv> take (nat k) (order_created_at False
                    [r \<leftarrow> xs. conversation_id r = cid \<and> created_at r > ts])"
  shows "length rs \<le> nat k"
    and "set rs \<subseteq> {r \<in> set xs. conversation_id r = cid \<and> created_at r > ts}"
    and "sorted (map created_at rs)"
proof -
  show "length rs \<le> nat k" by (simp add: rs_def)
  show "set rs \<subseteq> {r \<in> set xs. conversation_id r = cid \<and> created_at r > ts}"
    unfolding rs_def order_created_at_def using set_take_subset by fastforce
  show "sorted (map created_at rs)"
    unfolding rs_def order_created_at_def by (simp add: take_map[symmetric] sorted_wrt_take)
qed

text \<open>What the function returns when the anchor is found and no round trip fails.\<close>

lemma get_message_context_ok:
  assumes "configured w" "faults w = []" "[r \<leftarrow> joined w. msg_id r = message_id] = [a]"
    "0 \<le> b" "0 \<le> n"
  shows "get_message_context message_id b n w =
    (Inr \<lparr>message = row_to_message a None,
          before = map (\<lambda>r. row_to_message r None) (rev (take (nat b) (order_created_at True
                     [r \<leftarrow> joined w. conversation_id r = conversation_id a
                                      \<and> created_at r < created_at a]))),
          after = map (\<lambda>r. row_to_message r None) (take (nat n) (order_created_at False
                     [r \<leftarrow> joined w. conversation_id r = conversation_id a
                                      \<and> created_at r > created_at a]))\<rparr>, w)"
  using assms
  by (simp add: get_message_context_def bind_io_def get_supabase_def fetch_ok single_def limit_def
      return_io_def Let_def)

text \<open>
  C1. When the anchor message is in the store (the joined select finds exactly the row
  \<open>a\<close>), the counts are non-negative and no round trip fails, \<open>get_message_context\<close>
  returns a context whose \<open>before\<close> list has at most \<open>b\<close> messages, all strictly
  earlier than the anchor and in ascending order of time, whose \<open>after\<close> list has at
  most \<open>n\<close> messages, all strictly later than the anchor and in ascending order of
  time, and every message of both lists is built from a row of the anchor's
  conversation.
\<close>

theorem get_message_context_window:
  assumes "configured w" "faults w = []" "[r \<leftarrow> joined w. msg_id r = message_id] = [a]"
    "0 \<le> b" "0 \<le> n"
  shows "\<exists>ctx. get_message_context message_id b n w = (Inr ctx, w)
           \<and> length (before ctx) \<le> nat b
           \<and> (\<forall>m \<in> set (before ctx). timestamp m < created_at a)
           \<and> sorted (map timestamp (before ctx))
           \<and> length (after ctx) \<le> nat n
           \<and> (\<forall>m \<in> set (after ctx). created_at a < timestamp m)
           \<and> sorted (map timestamp (after ctx))
           \<and> (\<forall>m \<in> set (before ctx) \<union> set (after ctx).
                 \<exists>r \<in> set (joined w). conversation_id r = conversation_id a
                                        \<and> m = row_to_message r None)"
proof -
  define bs where "bs = take (nat b) (order_created_at True
      [r \<leftarrow> joined w. conversation_id r = conversation_id a \<and> created_at r < created_at a])"
  define as where "as = take (nat n) (order_created_at False
      [r \<leftarrow> joined w. conversation_id r = conversation_id a \<and> created_at r > created_at a])"
  define ctx where "ctx = \<lparr>message = row_to_message a None,
      before = map (\<lambda>r. row_to_message r None) (rev bs),
      after = map (\<lambda>r. row_to_message r None) as\<rparr>"
  note B = before_window[OF \<open>0 \<le> b\<close>, where xs = "joined w" and cid = "conversation_id a"
      and ts = "created_at a", folded bs_def]
  note A = after_window[OF \<open>0 \<le> n\<close>, where xs = "joined w" and cid = "conversation_id a"
      and ts = "created_at a", folded as_def]
  have run: "get_message_context message_id b n w = (Inr ctx, w)"
    unfolding ctx_def bs_def as_def by (rule get_message_context_ok[OF assms])
  have 1: "length (before ctx) \<le> nat b" using B(1) by (simp add: ctx_def)
  have 2: "\<forall>m \<in> set (before ctx). timestamp m < created_at a"
    using B(2) by (auto simp: ctx_def timestamp_row_to_message)
  have 3: "sorted (map timestamp (before ctx))"
    using B(3) by (simp add: ctx_def o_def timestamp_row_to_message)
  have 4: "length (after ctx) \<le> nat n" using A(1) by (simp add: ctx_def)
  have 5: "\<forall>m \<in> set (after ctx). created_at a < timestamp m"
    using A(2) by (auto simp: ctx_def timestamp_row_to_message)
  have 6: "sorted (map timestamp (after ctx))"
    using A(3) by (simp add: ctx_def o_def timestamp_row_to_message)
  have 7: "\<forall>m \<in> set (before ctx) \<union> set (after ctx).
      \<exists>r \<in> set (joined w). conversation_id r = conversation_id a \<and> m = row_to_message r None"
    using A(2) B(2) by (auto simp: ctx_def)
  from run 1 2 3 4 5 6 7 show ?thesis by blast
qed

theorem get_message_context_window_witness:
  "configured ex_store \<and> faults ex_store = []
   \<and> [r \<leftarrow> joined ex_store. msg_id r = ''m2''] = [ex_anchor] \<and> (0::int) \<le> 1
   \<and> (\<exists>ctx. get_message_context ''m2'' 1 1 ex_store = (Inr ctx, ex_store)
           \<and> length (before ctx) \<le> nat 1
           \<and> (\<forall>m \<in> set (before ctx). timestamp m < created_at ex_anchor)
           \<and> sorted (map timestamp (before ctx))
           \<and> length (after ctx) \<le> nat 1
           \<and> (\<forall>m \<in> set (after ctx). created_at ex_anchor < timestamp m)
           \<and> sorted (map timestamp (after ctx))
           \<and> (\<forall>m \<in> set (before ctx) \<union> set (after ctx).
                 \<exists>r \<in> set (joined ex_store). conversation_id r = conversation_id ex_anchor
                                        \<and> m = row_to_message r None))"
proof -
  have h1: "configured ex_store" and h2: "faults ex_store = []"
    by (simp_all add: ex_store_def)
  have h4: "(0::int) \<le> 1" by simp
  from get_message_context_window [OF h1 h2 ex_joined_anchor h4 h4] h1 h2 ex_joined_anchor h4
  show ?thesis by blast
qed

section \<open>Saving messages\<close>

lemma fresh_id_longer: "s \<in> set used \<Longrightarrow> length s < length (fresh_id used)"
  by (induction used) (auto simp: fresh_id_def)

lemma fresh_id_new: "fresh_id used \<notin> set used"
  using fresh_id_longer by blast

lemma case_take1:
  "(case take (Suc 0) xs of [] \<Rightarrow> a | c # x \<Rightarrow> f c) = (case xs of [] \<Rightarrow> a | c # x \<Rightarrow> f c)"
  by (cases xs) auto

text \<open>What \<open>save_message\<close> returns and writes when no round trip fails.\<close>

lemma save_message_ok:
  fixes w :: store and j :: string and t :: "int option"
  defines "found \<equiv> [c \<leftarrow> conversations_tbl w. contact_identifier c = j \<and> conv_channel c = ''whatsapp'']"
  defines "cid \<equiv> (case found of [] \<Rightarrow> fresh_id (map conv_id (conversations_tbl w)) | c # _ \<Rightarrow> conv_id c)"
  defines "convs \<equiv> (case found of
                      [] \<Rightarrow> conversations_tbl w @
                              [\<lparr>conv_id = cid, conv_channel = ''whatsapp'', contact_identifier = j,
                                contact_name = None, status = ''active'', last_message_at = None\<rparr>]
                    | _ # _ \<Rightarrow> conversations_tbl w)"
  defines "now \<equiv> (case t of Some t' \<Rightarrow> t' | None \<Rightarrow> clock w)"
  defines "mid \<equiv> fresh_id (map msg_id (messages_tbl w))"
  assumes "configured w" "faults w = []"
  shows "save_message j s r b d e mt t w =
     (Some mid,
      w\<lparr>conversations_tbl :=
           map (\<lambda>c. if conv_id c = cid then c\<lparr>last_message_at := Some now\<rparr> else c) convs,
        messages_tbl := messages_tbl w @
           [\<lparr>msg_id = mid, conversation_id = cid, channel = ''whatsapp'', direction = d,
             row_sender = Some s, recipient = Some r, body = b, created_at = now,
             updated_at = now, topic = ''chat'', extension = ''text'', external_id = e,
             metadata = (if truthy mt then mt else None), payload = None,
             conversations = None\<rparr>]\<rparr>)"
proof (cases found)
  case Nil
  then have f: "[c \<leftarrow> conversations_tbl w. contact_identifier c = j \<and> conv_channel c = ''whatsapp''] = []"
    by (simp add: found_def)
  show ?thesis
    using assms(6,7) f unfolding cid_def convs_def now_def mid_def found_def
    by (simp add: save_message_def save_message_try_def bind_io_def get_supabase_def fetch_ok
        limit_def return_io_def raise_io_def insert_conversation_def insert_message_def
        update_conversations_def execute_def Let_def split: option.splits)
next
  case (Cons c cs)
  then have f: "[c \<leftarrow> conversations_tbl w. contact_identifier c = j \<and> conv_channel c = ''whatsapp''] = c # cs"
    by (simp add: found_def)
  show ?thesis
    using assms(6,7) f unfolding cid_def convs_def now_def mid_def found_def
    by (simp add: save_message_def save_message_try_def bind_io_def get_supabase_def fetch_ok
        limit_def return_io_def raise_io_def insert_conversation_def insert_message_def
        update_conversations_def execute_def Let_def split: option.splits)
qed


lemma find_conv_id:
  "cid \<in> conv_id ` set cs \<Longrightarrow> \<exists>c. List.find (\<lambda>c. conv_id c = cid) cs = Some c \<and> conv_id c = cid"
  by (cases "List.find (\<lambda>c. conv_id c = cid) cs") (auto simp: find_None_iff find_Some_iff)

lemma joined_snoc:
  assumes "messages_tbl w' = ms @ [r]" "msg_id r \<notin> msg_id ` set ms"
    "conversation_id r \<in> conv_id ` set (conversations_tbl w')"
  shows "\<exists>c. [x \<leftarrow> joined w'. msg_id x = msg_id r] = [r\<lparr>conversations := Some c\<rparr>]"
proof -
  obtain c where c: "List.find (\<lambda>c. conv_id c = conversation_id r) (conversations_tbl w') = Some c"
    using find_conv_id[OF assms(3)] by blast
  have old: "[x \<leftarrow> List.map_filter (join_conversation cs) ms. msg_id x = msg_id r] = []" for cs
    using assms(2)
    by (force simp: filter_empty_conv map_filter_def join_conversation_def image_iff
        split: option.splits)
  have "joined w' = List.map_filter (join_conversation (conversations_tbl w')) ms
                     @ [r\<lparr>conversations := Some c\<rparr>]"
    using c by (simp add: joined_def assms(1) map_filter_def join_conversation_def)
  then show ?thesis using old by auto
qed

lemma touch_conv_ids:
  "conv_id ` set (map (\<lambda>c. if conv_id c = cid then c\<lparr>last_message_at := x\<rparr> else c) cs)
     = conv_id ` set cs"
  by (induction cs) auto

text \<open>
  C3. Round trip: a message saved by \<open>save_message\<close> with direction \<^verbatim>\<open>outbound\<close> and a
  non-empty recipient, on a configured store where no round trip fails, is saved under
  some id; \<open>get_message_context\<close> for that id (with non-negative counts) returns a
  context whose message has that id, \<open>is_from_me\<close> true and \<open>chat_jid\<close> equal to the
  saved recipient.
\<close>

theorem save_message_roundtrip:
  assumes "configured w" "faults w = []" "r \<noteq> []" "0 \<le> k" "0 \<le> n"
  shows "\<exists>mid w' ctx.
           save_message j s r b ''outbound'' e mt t w = (Some mid, w')
           \<and> get_message_context mid k n w' = (Inr ctx, w')
           \<and> ident (message ctx) = mid
           \<and> is_from_me (message ctx)
           \<and> chat_jid (message ctx) = r"
proof -
  define found where "found = [c \<leftarrow> conversations_tbl w. contact_identifier c = j \<and> conv_channel c = ''whatsapp'']"
  define cid where "cid = (case found of [] \<Rightarrow> fresh_id (map conv_id (conversations_tbl w)) | c # _ \<Rightarrow> conv_id c)"
  define convs where "convs = (case found of
                      [] \<Rightarrow> conversations_tbl w @
                              [\<lparr>conv_id = cid, conv_channel = ''whatsapp'', contact_identifier = j,
                                contact_name = None, status = ''active'', last_message_at = None\<rparr>]
                    | _ # _ \<Rightarrow> conversations_tbl w)"
  define now where "now = (case t of Some t' \<Rightarrow> t' | None \<Rightarrow> clock w)"
  define mid where "mid = fresh_id (map msg_id (messages_tbl w))"
  define row where "row = \<lparr>msg_id = mid, conversation_id = cid, channel = ''whatsapp'',
             direction = ''outbound'',
             row_sender = Some s, recipient = Some r, body = b, created_at = now,
             updated_at = now, topic = ''chat'', extension = ''text'', external_id = e,
             metadata = (if truthy mt then mt else None), payload = None,
             conversations = None\<rparr>"
  define w' where "w' = w\<lparr>conversations_tbl :=
           map (\<lambda>c. if conv_id c = cid then c\<lparr>last_message_at := Some now\<rparr> else c) convs,
        messages_tbl := messages_tbl w @ [row]\<rparr>"
  have sm: "save_message j s r b ''outbound'' e mt t w = (Some mid, w')"
    unfolding w'_def row_def mid_def now_def convs_def cid_def found_def
    by (rule save_message_ok[OF assms(1,2)])
  have w': "configured w'" "faults w' = []" "messages_tbl w' = messages_tbl w @ [row]"
    using assms(1,2) by (simp_all add: w'_def)
  have fresh: "msg_id row \<notin> msg_id ` set (messages_tbl w)"
    using fresh_id_new[of "map msg_id (messages_tbl w)"] by (simp add: row_def mid_def)
  have "cid \<in> conv_id ` set convs"
  proof (cases found)
    case Nil
    then show ?thesis by (simp add: convs_def)
  next
    case (Cons c cs)
    then have "c \<in> set found" by simp
    then have "c \<in> set (conversations_tbl w)"
      by (simp add: found_def)
    then show ?thesis using Cons by (auto simp: convs_def cid_def)
  qed
  moreover have "conv_id ` set (conversations_tbl w') = conv_id ` set convs"
    unfolding w'_def using touch_conv_ids[of cid "Some now" convs]
    by simp
  ultimately have "conversation_id row \<in> conv_id ` set (conversations_tbl w')"
    by (simp add: row_def)
  from joined_snoc[OF w'(3) fresh this]
  obtain c where a: "[x \<leftarrow> joined w'. msg_id x = mid] = [row\<lparr>conversations := Some c\<rparr>]"
    by (auto simp: row_def)
  note ctx = get_message_context_ok[OF w'(1,2) a assms(4,5)]
  have "is_from_me (row_to_message (row\<lparr>conversations := Some c\<rparr>) None)"
    "chat_jid (row_to_message (row\<lparr>conversations := Some c\<rparr>) None) = r"
    "ident (row_to_message (row\<lparr>conversations := Some c\<rparr>) None) = mid"
    using assms(3) by (simp_all add: row_to_message_def row_def truthy_def)
  with sm ctx show ?thesis by auto
qed


theorem save_message_roundtrip_witness:
  "configured ex_store \<and> faults ex_store = [] \<and> ''123@s.whatsapp.net'' \<noteq> [] \<and> (0::int) \<le> 5
   \<and> (\<exists>mid w' ctx.
           save_message ''123@s.whatsapp.net'' ''me@s.whatsapp.net'' ''123@s.whatsapp.net'' ''hi''
             ''outbound'' None None (Some 40) ex_store = (Some mid, w')
           \<and> get_message_context mid 5 5 w' = (Inr ctx, w')
           \<and> ident (message ctx) = mid
           \<and> is_from_me (message ctx)
           \<and> chat_jid (message ctx) = ''123@s.whatsapp.net'')"
proof -
  have h1: "configured ex_store" and h2: "faults ex_store = []"
    by (simp_all add: ex_store_def)
  have h3: "''123@s.whatsapp.net'' \<noteq> []" by simp
  have h4: "(0::int) \<le> 5" by simp
  from save_message_roundtrip [OF h1 h2 h3 h4 h4] h1 h2 h3 h4
  show ?thesis by blast
qed

lemma touch_keeps_identifier:
  "contact_identifier (if conv_id c = cid then c\<lparr>last_message_at := x\<rparr> else c) = contact_identifier c"
  "conv_channel (if conv_id c = cid then c\<lparr>last_message_at := x\<rparr> else c) = conv_channel c"
  "conv_id (if conv_id c = cid then c\<lparr>last_message_at := x\<rparr> else c) = conv_id c"
  by simp_all

lemma save_message_new:
  assumes "configured w" "faults w = []"
    "\<forall>c \<in> set (conversations_tbl w). contact_identifier c \<noteq> j"
  shows "\<exists>cs c row.
     save_message j s r b d e mt t w =
       (Some (msg_id row), w\<lparr>conversations_tbl := cs @ [c], messages_tbl := messages_tbl w @ [row]\<rparr>)
     \<and> length cs = length (conversations_tbl w)
     \<and> (\<forall>x \<in> set cs. contact_identifier x \<noteq> j)
     \<and> contact_identifier c = j \<and> conv_channel c = ''whatsapp''
     \<and> msg_id row = fresh_id (map msg_id (messages_tbl w))
     \<and> conversation_id row = conv_id c"
proof -
  define cid where "cid = fresh_id (map conv_id (conversations_tbl w))"
  define now where "now = (case t of Some t' \<Rightarrow> t' | None \<Rightarrow> clock w)"
  define touch :: "conversation \<Rightarrow> conversation"
    where "touch = (\<lambda>c. if conv_id c = cid then c\<lparr>last_message_at := Some now\<rparr> else c)"
  define c where "c = \<lparr>conv_id = cid, conv_channel = ''whatsapp'', contact_identifier = j,
      contact_name = None, status = ''active'', last_message_at = Some now\<rparr>"
  define row where "row = \<lparr>msg_id = fresh_id (map msg_id (messages_tbl w)), conversation_id = cid,
      channel = ''whatsapp'', direction = d,
      row_sender = Some s, recipient = Some r, body = b, created_at = now,
      updated_at = now, topic = ''chat'', extension = ''text'', external_id = e,
      metadata = (if truthy mt then mt else None), payload = None, conversations = None\<rparr>"
  have f: "[c \<leftarrow> conversations_tbl w. contact_identifier c = j \<and> conv_channel c = ''whatsapp''] = []"
    using assms(3) by (auto simp: filter_empty_conv)
  have run: "save_message j s r b d e mt t w =
       (Some (msg_id row), w\<lparr>conversations_tbl := map touch (conversations_tbl w) @ [c],
                              messages_tbl := messages_tbl w @ [row]\<rparr>)"
    unfolding save_message_ok[OF assms(1,2)] f
    by (simp add: row_def c_def touch_def cid_def now_def)
  have "\<forall>x \<in> set (map touch (conversations_tbl w)). contact_identifier x \<noteq> j"
    using assms(3) by (auto simp: touch_def)
  with run show ?thesis
    by (intro exI[of _ "map touch (conversations_tbl w)"] exI[of _ c] exI[of _ row])
       (simp add: c_def row_def)
qed

lemma save_message_existing:
  assumes "configured w" "faults w = []" "conversations_tbl w = cs @ [c]"
    "\<forall>x \<in> set cs. contact_identifier x \<noteq> j"
    "contact_identifier c = j" "conv_channel c = ''whatsapp''"
  shows "\<exists>cs' c' row.
     save_message j s r b d e mt t w =
       (Some (msg_id row), w\<lparr>conversations_tbl := cs' @ [c'], messages_tbl := messages_tbl w @ [row]\<rparr>)
     \<and> length cs' = length cs
     \<and> (\<forall>x \<in> set cs'. contact_identifier x \<noteq> j)
     \<and> contact_identifier c' = j \<and> conv_id c' = conv_id c
     \<and> msg_id row = fresh_id (map msg_id (messages_tbl w))
     \<and> conversation_id row = conv_id c"
proof -
  define now where "now = (case t of Some t' \<Rightarrow> t' | None \<Rightarrow> clock w)"
  define touch :: "conversation \<Rightarrow> conversation"
    where "touch = (\<lambda>x. if conv_id x = conv_id c then x\<lparr>last_message_at := Some now\<rparr> else x)"
  define row where "row = \<lparr>msg_id = fresh_id (map msg_id (messages_tbl w)), conversation_id = conv_id c,
      channel = ''whatsapp'', direction = d,
      row_sender = Some s, recipient = Some r, body = b, created_at = now,
      updated_at = now, topic = ''chat'', extension = ''text'', external_id = e,
      metadata = (if truthy mt then mt else None), payload = None, conversations = None\<rparr>"
  have f: "[c \<leftarrow> conversations_tbl w. contact_identifier c = j \<and> conv_channel c = ''whatsapp''] = [c]"
    using assms(3-6) by (auto simp: filter_empty_conv)
  have run: "save_message j s r b d e mt t w =
       (Some (msg_id row), w\<lparr>conversations_tbl := map touch cs @ [touch c],
                              messages_tbl := messages_tbl w @ [row]\<rparr>)"
    unfolding save_message_ok[OF assms(1,2)] f
    by (simp add: row_def touch_def now_def assms(3))
  have "\<forall>x \<in> set (map touch cs). contact_identifier x \<noteq> j"
    using assms(4) by (auto simp: touch_def)
  with run show ?thesis
    by (intro exI[of _ "map touch cs"] exI[of _ "touch c"] exI[of _ row])
       (simp add: row_def touch_def assms(5))
qed

text \<open>
  C4. Idempotence of conversation creation: when no conversation of the store has the
  identifier \<open>j\<close> and no round trip fails, two calls of \<open>save_message\<close> in a row with
  \<open>j\<close> both succeed, leave exactly one conversation row with that identifier (one row
  more than before: the second call inserts none), and append two message rows with
  different ids, both attached to that conversation.
\<close>

theorem save_message_twice:
  assumes "configured w" "faults w = []"
    "\<forall>c \<in> set (conversations_tbl w). contact_identifier c \<noteq> j"
  shows "\<exists>m1 w1 m2 w2 c ra rb.
       save_message j s1 r1 b1 d1 e1 mt1 t1 w = (Some m1, w1)
     \<and> save_message j s2 r2 b2 d2 e2 mt2 t2 w1 = (Some m2, w2)
     \<and> [x \<leftarrow> conversations_tbl w2. contact_identifier x = j] = [c]
     \<and> length (conversations_tbl w2) = Suc (length (conversations_tbl w))
     \<and> messages_tbl w2 = messages_tbl w @ [ra, rb]
     \<and> msg_id ra = m1 \<and> msg_id rb = m2 \<and> m1 \<noteq> m2
     \<and> conversation_id ra = conv_id c \<and> conversation_id rb = conv_id c"
proof -
  from save_message_new[OF assms, of s1 r1 b1 d1 e1 mt1 t1]
  obtain cs c ra where 1:
    "save_message j s1 r1 b1 d1 e1 mt1 t1 w =
       (Some (msg_id ra), w\<lparr>conversations_tbl := cs @ [c], messages_tbl := messages_tbl w @ [ra]\<rparr>)"
    "length cs = length (conversations_tbl w)"
    "\<forall>x \<in> set cs. contact_identifier x \<noteq> j"
    "contact_identifier c = j" "conv_channel c = ''whatsapp''"
    "msg_id ra = fresh_id (map msg_id (messages_tbl w))"
    "conversation_id ra = conv_id c"
    by blast
  define w1 where "w1 = w\<lparr>conversations_tbl := cs @ [c], messages_tbl := messages_tbl w @ [ra]\<rparr>"
  have w1: "configured w1" "faults w1 = []" "conversations_tbl w1 = cs @ [c]"
    "messages_tbl w1 = messages_tbl w @ [ra]"
    using assms(1,2) by (simp_all add: w1_def)
  from save_message_existing[OF w1(1,2,3) 1(3,4,5), of s2 r2 b2 d2 e2 mt2 t2]
  obtain cs' c' rb where 2:
    "save_message j s2 r2 b2 d2 e2 mt2 t2 w1 =
       (Some (msg_id rb), w1\<lparr>conversations_tbl := cs' @ [c'], messages_tbl := messages_tbl w1 @ [rb]\<rparr>)"
    "length cs' = length cs"
    "\<forall>x \<in> set cs'. contact_identifier x \<noteq> j"
    "contact_identifier c' = j" "conv_id c' = conv_id c"
    "msg_id rb = fresh_id (map msg_id (messages_tbl w1))"
    "conversation_id rb = conv_id c"
    by blast
  define w2 where "w2 = w1\<lparr>conversations_tbl := cs' @ [c'], messages_tbl := messages_tbl w1 @ [rb]\<rparr>"
  have ne: "msg_id ra \<noteq> msg_id rb"
    using fresh_id_new[of "map msg_id (messages_tbl w1)"] by (auto simp: 2(6) w1(4))
  have one: "[x \<leftarrow> conversations_tbl w2. contact_identifier x = j] = [c']"
    using 2(3,4) by (simp add: w2_def filter_empty_conv)
  have len: "length (conversations_tbl w2) = Suc (length (conversations_tbl w))"
    by (simp add: w2_def 2(2) 1(2))
  have msgs: "messages_tbl w2 = messages_tbl w @ [ra, rb]"
    by (simp add: w2_def w1(4))
  show ?thesis
    using 1(1)[folded w1_def] 2(1)[folded w2_def] one len msgs ne 1(7) 2(5,7)
    by (intro exI[of _ "msg_id ra"] exI[of _ w1] exI[of _ "msg_id rb"] exI[of _ w2]
        exI[of _ c'] exI[of _ ra] exI[of _ rb]) simp
qed

theorem save_message_twice_witness:
  "configured ex_store \<and> faults ex_store = []
   \<and> ''999@s.whatsapp.net'' \<notin> contact_identifier ` set (conversations_tbl ex_store)
   \<and> (\<exists>m1 w1 m2 w2 c ra rb.
       save_message ''999@s.whatsapp.net'' ''999@s.whatsapp.net'' ''me@s.whatsapp.net'' ''hi''
         ''inbound'' None None (Some 40) ex_store = (Some m1, w1)
     \<and> save_message ''999@s.whatsapp.net'' ''me@s.whatsapp.net'' ''999@s.whatsapp.net'' ''yo''
         ''outbound'' None None None w1 = (Some m2, w2)
     \<and> [x \<leftarrow> conversations_tbl w2. contact_identifier x = ''999@s.whatsapp.net''] = [c]
     \<and> length (conversations_tbl w2) = Suc (length (conversations_tbl ex_store))
     \<and> messages_tbl w2 = messages_tbl ex_store @ [ra, rb]
     \<and> msg_id ra = m1 \<and> msg_id rb = m2 \<and> m1 \<noteq> m2
     \<and> conversation_id ra = conv_id c \<and> conversation_id rb = conv_id c)"
proof -
  have h1: "configured ex_store" and h2: "faults ex_store = []"
    by (simp_all add: ex_store_def)
  have h3: "\<forall>c \<in> set (conversations_tbl ex_store). contact_identifier c \<noteq> ''999@s.whatsapp.net''"
    by (simp add: ex_store_def ex_alice_def ex_group_def)
  have h3': "''999@s.whatsapp.net'' \<notin> contact_identifier ` set (conversations_tbl ex_store)"
    by (simp add: ex_store_def ex_alice_def ex_group_def)
  show ?thesis
    by (intro conjI h1 h2 h3' save_message_twice [OF h1 h2 h3])
qed

section \<open>Sender names\<close>

lemma first_contact_name_find:
  "first_contact_name (take (Suc 0) (filter P cs)) = display_name (List.find P cs)"
  by (induction cs) (auto simp: first_contact_name_def display_name_def truthy_def split: option.splits)

lemma ex_directory_facts:
  "configured ex_directory" "faults ex_directory = []"
  by (simp_all add: ex_directory_def ex_store_def)

text \<open>
  C6, as stated, fails in two ways. A conversation of another channel whose identifier
  equals the input, with a display name, is not looked at: the input comes back. And a
  conversation without a name whose identifier equals the input is also the first
  pattern match, so the named conversation \<^verbatim>\<open>444@lid\<close>, whose identifier contains the
  numeric portion \<^verbatim>\<open>444\<close>, is not reached: again the input comes back.
\<close>

theorem get_sender_name_counterexample:
  "ex_sms \<in> set (conversations_tbl ex_directory)
   \<and> contact_identifier ex_sms = ''31612345678'' \<and> contact_name ex_sms = Some ''Carol''
   \<and> fst (get_sender_name ''31612345678'' ex_directory) = ''31612345678''
   \<and> ex_alias \<in> set (conversations_tbl ex_directory)
   \<and> contact_identifier ex_alias = ''444@lid'' \<and> contact_name ex_alias = Some ''Dave''
   \<and> fst (get_sender_name ''444@s.whatsapp.net'' ex_directory) = ''444@s.whatsapp.net''"
  by (simp add: get_sender_name_def get_sender_name_try_def bind_io_def get_supabase_def
      fetch_ok limit_def return_io_def first_contact_name_def truthy_def before_at_def
      ilike_def lower_def ex_directory_facts
      ex_directory_def ex_store_def ex_alice_def ex_sms_def ex_unnamed_def ex_alias_def)

text \<open>
  C6, amended. \<open>get_sender_name\<close> looks only at conversations of channel \<^verbatim>\<open>whatsapp\<close>, in
  the order of the store. It returns the display name of the first one whose identifier
  equals the input, when that name is not empty; otherwise the display name of the first
  one whose identifier matches the pattern \<^verbatim>\<open>%portion%\<close> without regard to case, where
  the portion is the input up to its first \<^verbatim>\<open>@\<close>, when that name is not empty; otherwise
  the input. It never raises: when the client is not configured or a round trip fails,
  it returns the input.
\<close>

theorem get_sender_name_result:
  "fst (get_sender_name j w) =
     (if \<not> configured w then j
      else case faults w of
             Some e # fs \<Rightarrow> j
           | _ \<Rightarrow>
             (case display_name (List.find (\<lambda>c. contact_identifier c = j \<and> conv_channel c = ''whatsapp'')
                                  (conversations_tbl w)) of
                Some n \<Rightarrow> n
              | None \<Rightarrow>
                 (case drop 1 (faults w) of
                    Some e # fs \<Rightarrow> j
                  | _ \<Rightarrow>
                    (case display_name (List.find (\<lambda>c. ilike (''%'' @ before_at j @ ''%'') (contact_identifier c)
                                                     \<and> conv_channel c = ''whatsapp'')
                                         (conversations_tbl w)) of
                       Some n \<Rightarrow> n
                     | None \<Rightarrow> j))))"
proof (cases "configured w")
  case False
  then show ?thesis
    by (simp add: get_sender_name_def get_sender_name_try_def bind_io_def get_supabase_def)
next
  case True
  show ?thesis
  proof (cases "faults w")
    case Nil
    then show ?thesis using True
      by (simp add: get_sender_name_def get_sender_name_try_def bind_io_def get_supabase_def
          fetch_ok limit_def return_io_def first_contact_name_find Let_def split: option.splits)
  next
    case (Cons f fs)
    show ?thesis
    proof (cases f)
      case (Some e)
      then show ?thesis using True Cons
        by (simp add: get_sender_name_def get_sender_name_try_def bind_io_def get_supabase_def
            fetch_def execute_def)
    next
      case None
      then show ?thesis using True Cons
        by (simp add: get_sender_name_def get_sender_name_try_def bind_io_def get_supabase_def
            fetch_def execute_def limit_def return_io_def first_contact_name_find Let_def
            split: option.splits list.splits)
    qed
  qed
qed

text \<open>The scenario of the specification, and a failing round trip.\<close>

theorem get_sender_name_result_witness:
  "fst (get_sender_name ''123@s.whatsapp.net'' ex_store) = ''Alice''
   \<and> fst (get_sender_name ''999@s.whatsapp.net'' ex_store) = ''999@s.whatsapp.net''
   \<and> fst (get_sender_name ''123@s.whatsapp.net''
             (ex_store\<lparr>faults := [Some (APIError ''timeout'')]\<rparr>)) = ''123@s.whatsapp.net''"
  using get_sender_name_result [of "''123@s.whatsapp.net''" ex_store]
    get_sender_name_result [of "''999@s.whatsapp.net''" ex_store]
    get_sender_name_result [of "''123@s.whatsapp.net''" "ex_store\<lparr>faults := [Some (APIError ''timeout'')]\<rparr>"]
  by (simp add: display_name_def before_at_def ilike_def lower_def
      ex_store_def ex_alice_def ex_group_def)

subsection \<open>What the pattern \<^verbatim>\<open>%portion%\<close> matches\<close>

lemma like_percent_iff: "like (CHR ''%'' # q) s \<longleftrightarrow> (\<exists>pre suf. s = pre @ suf \<and> like q suf)"
proof (induction s)
  case Nil
  then show ?case by simp
next
  case (Cons c cs)
  show ?case
  proof
    assume "like (CHR ''%'' # q) (c # cs)"
    then consider "like q (c # cs)" | "like (CHR ''%'' # q) cs" by auto
    then show "\<exists>pre suf. c # cs = pre @ suf \<and> like q suf"
    proof cases
      case 1
      then show ?thesis by (intro exI[of _ "[]"] exI[of _ "c # cs"]) simp
    next
      case 2
      then obtain pre suf where "cs = pre @ suf" "like q suf" using Cons.IH by blast
      then show ?thesis by (intro exI[of _ "c # pre"] exI[of _ suf]) simp
    qed
  next
    assume "\<exists>pre suf. c # cs = pre @ suf \<and> like q suf"
    then obtain pre suf where ps: "c # cs = pre @ suf" "like q suf" by blast
    show "like (CHR ''%'' # q) (c # cs)"
    proof (cases pre)
      case Nil
      then show ?thesis using ps by auto
    next
      case (Cons a pre')
      then have "cs = pre' @ suf" using ps by simp
      then have "like (CHR ''%'' # q) cs" using Cons.IH ps(2) by blast
      then show ?thesis by simp
    qed
  qed
qed

lemma like_literal_append:
  "CHR ''%'' \<notin> set lit \<Longrightarrow> CHR ''_'' \<notin> set lit \<Longrightarrow>
   like (lit @ p) s \<longleftrightarrow> (\<exists>rest. s = lit @ rest \<and> like p rest)"
proof (induction lit arbitrary: s)
  case Nil
  then show ?case by simp
next
  case (Cons a lit)
  then show ?case by (cases s) auto
qed

lemma like_percent_all: "like ''%'' s"
  by (induction s) auto

lemma like_contains:
  assumes "CHR ''%'' \<notin> set lit" "CHR ''_'' \<notin> set lit"
  shows "like (''%'' @ lit @ ''%'') s \<longleftrightarrow> (\<exists>pre post. s = pre @ lit @ post)"
  using like_percent_iff[of "lit @ ''%''" s] like_literal_append[OF assms, of "''%''"]
  by (auto simp: like_percent_all)

lemma lower_eq_low:
  assumes "lower c = x" "(of_char x :: nat) < 65"
  shows "c = x"
proof (cases "65 \<le> (of_char c :: nat) \<and> (of_char c :: nat) \<le> 90")
  case True
  then have "lower c = char_of ((of_char c :: nat) + 32)" by (simp add: lower_def)
  then have "(of_char x :: nat) = ((of_char c :: nat) + 32) mod 256"
    using assms(1) by (metis of_char_of)
  then show ?thesis using True assms(2) by simp
next
  case False
  then show ?thesis using assms(1) by (auto simp: lower_def Let_def)
qed

lemma lower_percent: "lower c = CHR ''%'' \<Longrightarrow> c = CHR ''%''"
  by (rule lower_eq_low) simp_all

lemma lower_underscore: "lower c = CHR ''_'' \<Longrightarrow> c = CHR ''_''"
proof (cases "65 \<le> (of_char c :: nat) \<and> (of_char c :: nat) \<le> 90")
  case True
  assume a: "lower c = CHR ''_''"
  from True have "lower c = char_of ((of_char c :: nat) + 32)" by (simp add: lower_def)
  then have "(of_char (CHR ''_'') :: nat) = ((of_char c :: nat) + 32) mod 256"
    using a by (metis of_char_of)
  then show ?thesis using True by simp
next
  case False
  assume "lower c = CHR ''_''"
  then show ?thesis using False by (auto simp: lower_def Let_def)
qed

text \<open>
  For a portion without \<^verbatim>\<open>%\<close> and \<^verbatim>\<open>_\<close> the pattern matches the identifiers that
  contain the portion, letters compared without regard to case.
\<close>

lemma ilike_contains:
  assumes "CHR ''%'' \<notin> set p" "CHR ''_'' \<notin> set p"
  shows "ilike (''%'' @ p @ ''%'') s \<longleftrightarrow> (\<exists>pre post. map lower s = pre @ map lower p @ post)"
proof -
  have 1: "CHR ''%'' \<notin> set (map lower p)"
  proof
    assume "CHR ''%'' \<in> set (map lower p)"
    then obtain c where "c \<in> set p" "lower c = CHR ''%''" by auto
    then show False using assms(1) lower_percent by blast
  qed
  have 2: "CHR ''_'' \<notin> set (map lower p)"
  proof
    assume "CHR ''_'' \<in> set (map lower p)"
    then obtain c where "c \<in> set p" "lower c = CHR ''_''" by auto
    then show False using assms(2) lower_underscore by blast
  qed
  have "lower (CHR ''%'') = CHR ''%''" by (simp add: lower_def)
  then show ?thesis using like_contains[OF 1 2, of "map lower s"] by (simp add: ilike_def)
qed

lemma lower_digit: "is_digit d \<Longrightarrow> lower c = d \<Longrightarrow> c = d"
  by (rule lower_eq_low) (simp_all add: is_digit_def)

lemma lower_digits: "list_all is_digit p \<Longrightarrow> map lower xs = p \<Longrightarrow> xs = p"
proof (induction xs arbitrary: p)
  case Nil
  then show ?case by simp
next
  case (Cons x xs)
  then show ?case by (cases p) (auto dest: lower_digit)
qed

lemma lower_digits_id: "list_all is_digit p \<Longrightarrow> map lower p = p"
  by (induction p) (auto simp: is_digit_def lower_def)

lemma map_append_split:
  assumes "map f s = pre @ mid @ post"
  shows "\<exists>us vs ws. s = us @ vs @ ws \<and> map f vs = mid"
proof -
  let ?us = "take (length pre) s"
  let ?vs = "take (length mid) (drop (length pre) s)"
  let ?ws = "drop (length mid) (drop (length pre) s)"
  have "?vs @ ?ws = drop (length pre) s"
    by (simp only: append_take_drop_id)
  then have 1: "s = ?us @ ?vs @ ?ws"
    by (simp only: append_take_drop_id)
  have "map f ?vs = take (length mid) (drop (length pre) (map f s))"
    by (simp only: take_map drop_map)
  then have 2: "map f ?vs = mid"
    by (simp add: assms)
  from 1 2 show ?thesis
    by (intro exI[of _ ?us] exI[of _ ?vs] exI[of _ ?ws] conjI)
qed

text \<open>For a numeric portion the pattern matches exactly the identifiers that contain it.\<close>

lemma ilike_contains_digits:
  assumes "list_all is_digit p"
  shows "ilike (''%'' @ p @ ''%'') s \<longleftrightarrow> (\<exists>pre post. s = pre @ p @ post)"
proof -
  have w: "CHR ''%'' \<notin> set p" "CHR ''_'' \<notin> set p"
    using assms by (auto simp: list_all_iff is_digit_def)
  have c: "ilike (''%'' @ p @ ''%'') s \<longleftrightarrow> (\<exists>pre post. map lower s = pre @ p @ post)"
    using ilike_contains[OF w, of s] by (simp only: lower_digits_id[OF assms])
  show ?thesis
  proof
    assume "ilike (''%'' @ p @ ''%'') s"
    then obtain pre post where "map lower s = pre @ p @ post"
      using c by blast
    then obtain us vs ws where "s = us @ vs @ ws" "map lower vs = p"
      using map_append_split[of lower s pre p post] by blast
    then have "s = us @ p @ ws"
      using lower_digits[OF assms, of vs] by simp
    then show "\<exists>pre post. s = pre @ p @ post" by blast
  next
    assume "\<exists>pre post. s = pre @ p @ post"
    then obtain pre post where "s = pre @ p @ post" by blast
    then have "map lower s = map lower pre @ p @ map lower post"
      by (simp add: lower_digits_id[OF assms])
    then show "ilike (''%'' @ p @ ''%'') s" using c by blast
  qed
qed

section \<open>Formatting one message\<close>





text \<open>
  With \<open>get_sender_name\<close> as the resolver, which turns every failure into the input
  identifier, \<open>format_message\<close> always returns the whole line.
\<close>

lemma format_message_complete:
  "\<exists>sender_name w'. format_message m show_chat_info w =
     ((if show_chat_info \<and> truthy (chat_name m)
       then ''['' @ strftime (timestamp m) @ ''] Chat: '' @ the (chat_name m) @ '' ''
       else ''['' @ strftime (timestamp m) @ ''] '')
      @ ''From: '' @ sender_name @ '': ''
      @ (if truthy (media_type m)
         then ''['' @ the (media_type m) @ '' - Message ID: '' @ ident m
              @ '' - Chat JID: '' @ chat_jid m @ ''] ''
         else [])
      @ content m @ [CHR 0x0A], w')"
  by (cases "get_sender_name (sender m) w")
     (simp add: format_message_def format_message_with_def Let_def)

section \<open>Listing messages\<close>


text \<open>A failure of the second round trip, inside the context expansion.\<close>

lemma list_messages_context_failure:
  "fst (list_messages None None None None None 20 0 True 1 1
         (ex_store\<lparr>faults := [None, Some (APIError ''connection reset'')]\<rparr>))
     = ''Error: connection reset''"
  by (simp add: list_messages_def list_messages_try_def bind_io_def get_supabase_def
      parse_bound_def truthy_def return_io_def fetch_def execute_def range_rows_def limit_def
      order_created_at_def joined_def map_filter_def join_conversation_def
      list_messages_filter_def ex_store_def ex_row_def ex_alice_def ex_group_def
      get_message_context_def row_to_message_def)

section \<open>Searching contacts\<close>

lemma like_percent_append: "like p s \<Longrightarrow> like (CHR ''%'' # p) (pre @ s)"
proof (induction pre)
  case Nil
  then show ?case by (cases s) auto
next
  case (Cons a pre)
  then show ?case by simp
qed

lemma suffix_group_ilike: "suffix ''@g.us'' s \<Longrightarrow> ilike ''%@g.us'' s"
proof -
  assume "suffix ''@g.us'' s"
  then obtain pre where s: "s = pre @ ''@g.us''" by (auto simp: suffix_def)
  have "like ''@g.us'' ''@g.us''" by simp
  from like_percent_append[OF this, of "map lower pre"]
  show ?thesis by (simp add: ilike_def s lower_def)
qed

lemma takeWhile_split:
  "x \<in> set s \<Longrightarrow> \<exists>rest. s = takeWhile (\<lambda>c. c \<noteq> x) s @ x # rest"
  by (induction s) auto

lemma before_at_split:
  "CHR ''@'' \<notin> set (before_at s) \<and> (s = before_at s \<or> (\<exists>rest. s = before_at s @ CHR ''@'' # rest))"
proof (cases "CHR ''@'' \<in> set s")
  case True
  have "CHR ''@'' \<notin> set (takeWhile (\<lambda>c. c \<noteq> CHR ''@'') s)"
    by (auto dest: set_takeWhileD)
  moreover have "\<exists>rest. s = takeWhile (\<lambda>c. c \<noteq> CHR ''@'') s @ CHR ''@'' # rest"
    using True by (rule takeWhile_split)
  ultimately show ?thesis using True by (simp add: before_at_def)
next
  case False
  then show ?thesis by (simp add: before_at_def)
qed

lemma search_contacts_cases:
  "fst (search_contacts q w) = []
   \<or> fst (search_contacts q w) =
       map (\<lambda>row. \<lparr>phone_number = before_at (contact_identifier row),
                    name = contact_name row, jid = contact_identifier row\<rparr>)
         (take 50 (sort_key contact_name_key
           [c \<leftarrow> conversations_tbl w.
              conv_channel c = ''whatsapp''
              \<and> \<not> ilike ''%@g.us'' (contact_identifier c)
              \<and> (ilike_opt (''%'' @ q @ ''%'') (contact_name c)
                  \<or> ilike (''%'' @ q @ ''%'') (contact_identifier c))]))"
proof (cases "configured w")
  case False
  then show ?thesis
    by (simp add: search_contacts_def search_contacts_try_def bind_io_def get_supabase_def)
next
  case True
  show ?thesis
  proof (cases "faults w")
    case Nil
    then show ?thesis using True
      by (simp add: search_contacts_def search_contacts_try_def bind_io_def get_supabase_def
          fetch_ok limit_def return_io_def)
  next
    case (Cons f fs)
    then show ?thesis using True
      by (cases f) (simp_all add: search_contacts_def search_contacts_try_def bind_io_def
          get_supabase_def fetch_def execute_def limit_def return_io_def)
  qed
qed

lemma ex_search: "fst (search_contacts [] ex_store) =
       [\<lparr>phone_number = ''123'', name = Some ''Alice'', jid = ''123@s.whatsapp.net''\<rparr>]"
  by (simp add: search_contacts_def search_contacts_try_def bind_io_def get_supabase_def
      fetch_ok limit_def return_io_def ex_store_def ex_alice_def ex_group_def ilike_def
      ilike_opt_def lower_def before_at_def)

text \<open>
  C8. For every query and every store, with any outcome of the round trips,
  \<open>search_contacts\<close> returns at most 50 entries; no entry's \<open>jid\<close> ends in \<^verbatim>\<open>@g.us\<close>; and
  each entry's \<open>phone_number\<close> has no \<^verbatim>\<open>@\<close> and is either the whole \<open>jid\<close> or the part
  of it before its first \<^verbatim>\<open>@\<close>.
\<close>

theorem search_contacts_properties:
  "length (fst (search_contacts q w)) \<le> 50
   \<and> (\<forall>e \<in> set (fst (search_contacts q w)).
         \<not> suffix ''@g.us'' (jid e)
         \<and> CHR ''@'' \<notin> set (phone_number e)
         \<and> (jid e = phone_number e \<or> (\<exists>rest. jid e = phone_number e @ CHR ''@'' # rest)))"
proof -
  define rows where "rows = take 50 (sort_key contact_name_key
         [c \<leftarrow> conversations_tbl w.
            conv_channel c = ''whatsapp''
            \<and> \<not> ilike ''%@g.us'' (contact_identifier c)
            \<and> (ilike_opt (''%'' @ q @ ''%'') (contact_name c)
                \<or> ilike (''%'' @ q @ ''%'') (contact_identifier c))])"
  define mk :: "conversation \<Rightarrow> Contact"
    where "mk = (\<lambda>row. \<lparr>phone_number = before_at (contact_identifier row),
                         name = contact_name row, jid = contact_identifier row\<rparr>)"
  have res: "fst (search_contacts q w) = [] \<or> fst (search_contacts q w) = map mk rows"
    unfolding rows_def mk_def by (rule search_contacts_cases)
  have len: "length rows \<le> 50" by (simp add: rows_def)
  have grp: "\<not> suffix ''@g.us'' (contact_identifier c)" if "c \<in> set rows" for c
  proof -
    from that have "\<not> ilike ''%@g.us'' (contact_identifier c)"
      unfolding rows_def by (auto dest!: in_set_takeD)
    then show ?thesis using suffix_group_ilike by blast
  qed
  have each: "\<not> suffix ''@g.us'' (jid (mk c)) \<and> CHR ''@'' \<notin> set (phone_number (mk c))
     \<and> (jid (mk c) = phone_number (mk c)
         \<or> (\<exists>rest. jid (mk c) = phone_number (mk c) @ CHR ''@'' # rest))"
    if "c \<in> set rows" for c
    using grp[OF that] before_at_split[of "contact_identifier c"] by (simp add: mk_def)
  from res show ?thesis
  proof
    assume "fst (search_contacts q w) = []"
    then show ?thesis by simp
  next
    assume "fst (search_contacts q w) = map mk rows"
    then show ?thesis using len each by auto
  qed
qed

theorem search_contacts_properties_witness:
  "fst (search_contacts [] ex_store) =
       [\<lparr>phone_number = ''123'', name = Some ''Alice'', jid = ''123@s.whatsapp.net''\<rparr>]
   \<and> length (fst (search_contacts [] ex_store)) \<le> 50
   \<and> \<not> suffix ''@g.us'' ''123@s.whatsapp.net''
   \<and> CHR ''@'' \<notin> set ''123''
   \<and> (\<exists>rest. ''123@s.whatsapp.net'' = ''123'' @ CHR ''@'' # rest)"
  using search_contacts_properties [of "[]" ex_store] ex_search by simp

section \<open>Updating a contact name\<close>




end
